theory Spec2Isabelle
  imports Main "HOL-Library.Sublist"
begin

section \<open>Values thrown by the libraries\<close>

text \<open>
  A value caught by \<^verbatim>\<open>catch (error: unknown)\<close> in \<^verbatim>\<open>src/news.ts\<close> is inspected in
  four ways only: \<^verbatim>\<open>error.response?.status\<close>, \<^verbatim>\<open>error.response?.headers?.["retry-after"]\<close>,
  \<^verbatim>\<open>error instanceof Error\<close> and \<^verbatim>\<open>error.message\<close>. The record keeps exactly these.
  An absent property (\<^verbatim>\<open>undefined\<close>) is \<open>None\<close>. The headers object is an association
  list read with \<open>map_of\<close>.
\<close>

record response =
  status :: "int option"
  headers :: "(string \<times> string) list option"

record js_error =
  is_Error :: bool
  message :: string
  response :: "response option"

text \<open>\<^verbatim>\<open>new Error(msg)\<close>, as thrown by the repository's own code.\<close>

definition Error :: "string \<Rightarrow> js_error" where
  "Error msg = \<lparr>is_Error = True, message = msg, response = None\<rparr>"

section \<open>Strings and numbers of the runtime\<close>

text \<open>
  \<^verbatim>\<open>String.prototype.includes\<close>: the argument occurs as a contiguous substring.
\<close>

fun str_includes :: "string \<Rightarrow> string \<Rightarrow> bool" where
  "str_includes [] sub = (sub = [])"
| "str_includes (c # cs) sub = (prefix sub (c # cs) \<or> str_includes cs sub)"

text \<open>
  \<^verbatim>\<open>parseInt(s, 10)\<close> (ECMAScript 19.2.5): leading white space is dropped, one sign is
  read, then the longest run of decimal digits; with no digit the result is \<^verbatim>\<open>NaN\<close>,
  which is \<open>None\<close> here. Strings are byte strings, so white space is the ASCII part of
  the standard's set, and the result is the exact integer (a double holds it exactly up
  to \<open>2^53\<close>).
\<close>

definition isWhiteSpace :: "char \<Rightarrow> bool" where
  "isWhiteSpace c = (c \<in> set [CHR 0x09, CHR 0x0A, CHR 0x0B, CHR 0x0C, CHR 0x0D, CHR 0x20])"

definition isDigit :: "char \<Rightarrow> bool" where
  "isDigit c = (c \<in> set ''0123456789'')"

definition digitValue :: "char \<Rightarrow> nat" where
  "digitValue c = of_char c - 48"

definition digitsValue :: "string \<Rightarrow> nat" where
  "digitsValue ds = foldl (\<lambda>acc c. 10 * acc + digitValue c) 0 ds"

definition parseInt :: "string \<Rightarrow> int option" where
  "parseInt s =
     (let s1 = dropWhile isWhiteSpace s;
          sign = (case s1 of c # _ \<Rightarrow> if c = CHR ''-'' then - 1 else 1 | [] \<Rightarrow> (1::int));
          s2 = (case s1 of c # cs \<Rightarrow> if c = CHR ''+'' \<or> c = CHR ''-'' then cs else s1 | [] \<Rightarrow> s1);
          ds = takeWhile isDigit s2
      in if ds = [] then None else Some (sign * int (digitsValue ds)))"

section \<open>The feed document and the outside world\<close>

text \<open>
  Of an item of \<^verbatim>\<open>Parser.Output\<close> the aggregator reads \<^verbatim>\<open>link\<close> and \<^verbatim>\<open>isoDate\<close>, both
  optional strings.
\<close>

record Item =
  item_link :: "string option"
  isoDate :: "string option"

record Output =
  items :: "Item list"

text \<open>
  The network and the timer are outside the repository. They are parameters: each
  operation takes the state of the world \<open>'w\<close> and returns the new one, and a rejected
  promise is \<open>Inl\<close> of the thrown value. Logging is not modelled.
\<close>

record 'w retry_io =
  parseURL :: "string \<Rightarrow> 'w \<Rightarrow> (js_error + Output) \<times> 'w"
  setTimeout :: "int \<Rightarrow> 'w \<Rightarrow> 'w"

section \<open>\<^verbatim>\<open>getRSSFeed\<close> (src/news.ts)\<close>

definition maxRetries :: nat where
  "maxRetries = 6"

definition is429Error :: "js_error \<Rightarrow> bool" where
  "is429Error error =
     ((case response error of None \<Rightarrow> False | Some r \<Rightarrow> status r = Some 429) \<or>
      (is_Error error \<and> str_includes (message error) ''Status code 429''))"

definition retryAfter :: "js_error \<Rightarrow> string option" where
  "retryAfter error =
     (case response error of
        None \<Rightarrow> None
      | Some r \<Rightarrow> (case headers r of None \<Rightarrow> None | Some hs \<Rightarrow> map_of hs ''retry-after''))"

text \<open>
  \<^verbatim>\<open>retryAfter && !isNaN(parseInt(retryAfter, 10)) ? parseInt(retryAfter, 10) : 30\<close>;
  a string is falsy exactly when it is empty.
\<close>

definition delaySeconds :: "js_error \<Rightarrow> int" where
  "delaySeconds error =
     (case retryAfter error of
        None \<Rightarrow> 30
      | Some v \<Rightarrow>
          (if v \<noteq> [] then (case parseInt v of None \<Rightarrow> 30 | Some n \<Rightarrow> n) else 30))"

text \<open>
  The \<^verbatim>\<open>while (attemptCount <= maxRetries)\<close> loop. The last branch is the
  \<^verbatim>\<open>throw\<close> after the loop.
\<close>

function getRSSFeed_loop ::
  "('w, 'z) retry_io_scheme \<Rightarrow> string \<Rightarrow> nat \<Rightarrow> 'w \<Rightarrow> (js_error + Output) \<times> 'w" where
  "getRSSFeed_loop io feed attemptCount w =
     (if attemptCount \<le> maxRetries then
        (case parseURL io feed w of
           (Inr out, w') \<Rightarrow> (Inr out, w')
         | (Inl error, w') \<Rightarrow>
             (let attemptCount' = attemptCount + 1 in
              if \<not> is429Error error \<or> attemptCount' > maxRetries then (Inl error, w')
              else getRSSFeed_loop io feed attemptCount'
                     (setTimeout io (delaySeconds error * 1000) w')))
      else (Inl (Error ''Unexpected end of retry loop''), w))"
  by pat_completeness auto
termination
  by (relation "measure (\<lambda>(io, feed, attemptCount, w). Suc maxRetries - attemptCount)") auto

definition getRSSFeed ::
  "('w, 'z) retry_io_scheme \<Rightarrow> string \<Rightarrow> 'w \<Rightarrow> (js_error + Output) \<times> 'w" where
  "getRSSFeed io feed w = getRSSFeed_loop io feed 0 w"

subsection \<open>A scripted parser, as in the repository's tests\<close>

text \<open>
  \<^verbatim>\<open>spec/news.test.ts\<close> replaces \<^verbatim>\<open>Parser.prototype.parseURL\<close> by a mock that answers
  the calls from a script and counts them, and \<^verbatim>\<open>setTimeout\<close> by one that returns at
  once. \<open>mock_io script\<close> is that harness: the \<open>i\<close>-th call (from 0) gets \<open>script i\<close>,
  \<open>calls\<close> counts the calls made, \<open>timeouts\<close> lists the delays requested, in order.
\<close>

record trace =
  calls :: nat
  timeouts :: "int list"

definition trace0 :: trace where
  "trace0 = \<lparr>calls = 0, timeouts = []\<rparr>"

definition mock_io :: "(nat \<Rightarrow> js_error + Output) \<Rightarrow> trace retry_io" where
  "mock_io script =
     \<lparr>parseURL = (\<lambda>feed w. (script (calls w), w\<lparr>calls := Suc (calls w)\<rparr>)),
      setTimeout = (\<lambda>ms w. w\<lparr>timeouts := timeouts w @ [ms]\<rparr>)\<rparr>"

text \<open>An outcome of one attempt is a rate-limit failure; the delay the loop asks for after it.\<close>

definition rate_limited :: "js_error + Output \<Rightarrow> bool" where
  "rate_limited r = (case r of Inl e \<Rightarrow> is429Error e | Inr _ \<Rightarrow> False)"

definition delayMs :: "js_error + Output \<Rightarrow> int" where
  "delayMs r = (case r of Inl e \<Rightarrow> delaySeconds e * 1000 | Inr _ \<Rightarrow> 0)"

text \<open>The errors of the tests: a 429 with a one-second hint, a bare message, a 404.\<close>

definition error429 :: js_error where
  "error429 = \<lparr>is_Error = True, message = ''Too Many Requests'',
     response = Some \<lparr>status = Some 429, headers = Some [(''retry-after'', ''1'')]\<rparr>\<rparr>"

definition error429_message_only :: js_error where
  "error429_message_only = Error ''Status code 429''"

definition error404 :: js_error where
  "error404 = \<lparr>is_Error = True, message = ''Not Found'',
     response = Some \<lparr>status = Some 404, headers = None\<rparr>\<rparr>"

definition success_after :: "nat \<Rightarrow> nat \<Rightarrow> js_error + Output" where
  "success_after n i = (if i < n then Inl error429 else Inr \<lparr>items = []\<rparr>)"

text \<open>
  A 429 whose hint is an HTTP date, and a script of three rate-limit failures (hint
  \<open>1\<close>, no response object, hint not a number) before a success.
\<close>

definition error429_bad_hint :: js_error where
  "error429_bad_hint = \<lparr>is_Error = True, message = ''Too Many Requests'',
     response = Some \<lparr>status = Some 429, headers = Some [(''retry-after'', ''Wed, 21 Oct 2015 07:28:00 GMT'')]\<rparr>\<rparr>"

definition hints_script :: "nat \<Rightarrow> js_error + Output" where
  "hints_script i =
     (if i = 0 then Inl error429 else if i = 1 then Inl error429_message_only
      else if i = 2 then Inl error429_bad_hint else Inr \<lparr>items = []\<rparr>)"

section \<open>The listing page\<close>

text \<open>
  The document \<^verbatim>\<open>new JSDOM(data).window.document\<close> is the tree under its root element.
  An element has its tag name (lower case, as the HTML parser leaves it), its attributes
  and its child nodes in document order.
\<close>

datatype node =
    Element (tagName: string) (attributes: "(string \<times> string) list") (childNodes: "node list")
  | Text string
  | Comment string

text \<open>
  \<^verbatim>\<open>element.textContent\<close>: the data of the text nodes below the element, in document
  order; comments do not count.
\<close>

fun textContent :: "node \<Rightarrow> string" where
  "textContent (Element t as cs) = concat (map textContent cs)"
| "textContent (Text s) = s"
| "textContent (Comment s) = []"

definition getAttribute :: "node \<Rightarrow> string \<Rightarrow> string option" where
  "getAttribute n name = (case n of Element t as cs \<Rightarrow> map_of as name | _ \<Rightarrow> None)"

text \<open>The nodes below a node, in document order (the node itself is not one of them).\<close>

fun descendants :: "node \<Rightarrow> node list" where
  "descendants (Element t as cs) = concat (map (\<lambda>c. c # descendants c) cs)"
| "descendants (Text s) = []"
| "descendants (Comment s) = []"

definition is_tag :: "string \<Rightarrow> node \<Rightarrow> bool" where
  "is_tag name n = (case n of Element t as cs \<Rightarrow> t = name | _ \<Rightarrow> False)"

text \<open>\<^verbatim>\<open>element.querySelector(name)\<close> for a tag name: the first such element below it.\<close>

definition querySelector :: "node \<Rightarrow> string \<Rightarrow> node option" where
  "querySelector n name = find (is_tag name) (descendants n)"

text \<open>
  \<^verbatim>\<open>doc.querySelectorAll("h3")\<close>, each heading with its \<^verbatim>\<open>parentElement\<close> and its parent's
  \<^verbatim>\<open>parentElement\<close> (\<open>None\<close> is \<^verbatim>\<open>null\<close>: the root element has no parent element). The
  walk carries the two ancestors down the tree.
\<close>

fun headings :: "node option \<Rightarrow> node option \<Rightarrow> node \<Rightarrow> (node \<times> node option \<times> node option) list" where
  "headings grandparent parent (Element t as cs) =
     (if t = ''h3'' then [(Element t as cs, parent, grandparent)] else []) @
     concat (map (headings parent (Some (Element t as cs))) cs)"
| "headings grandparent parent (Text s) = []"
| "headings grandparent parent (Comment s) = []"

definition querySelectorAll_h3 :: "node \<Rightarrow> (node \<times> node option \<times> node option) list" where
  "querySelectorAll_h3 doc = headings None None doc"

section \<open>\<^verbatim>\<open>fetchNews\<close> (src/news.ts)\<close>

record News =
  title :: string
  link :: string
  content :: string

text \<open>
  The \<^verbatim>\<open>for (const header of headers.values())\<close> loop with its accumulator \<^verbatim>\<open>news\<close>.
  \<^verbatim>\<open>!x\<close> holds of \<^verbatim>\<open>null\<close>, \<^verbatim>\<open>undefined\<close> and the empty string.
\<close>

definition header_link :: "node option \<Rightarrow> string option" where
  "header_link parent = (case parent of None \<Rightarrow> None | Some p \<Rightarrow> getAttribute p ''href'')"

definition header_content :: "node option \<Rightarrow> string option" where
  "header_content grandparent =
     (case grandparent of
        None \<Rightarrow> None
      | Some g \<Rightarrow> (case querySelector g ''div'' of None \<Rightarrow> None | Some d \<Rightarrow> Some (textContent d)))"

fun headers_loop :: "(node \<times> node option \<times> node option) list \<Rightarrow> News list \<Rightarrow> News list" where
  "headers_loop [] news = news"
| "headers_loop ((header, parent, grandparent) # rest) news =
     (case (header_link parent, header_content grandparent) of
        (Some l, Some c) \<Rightarrow>
          if textContent header = [] \<or> l = [] \<or> c = [] then headers_loop rest news
          else headers_loop rest (news @ [\<lparr>title = textContent header, link = l, content = c\<rparr>])
      | _ \<Rightarrow> headers_loop rest news)"

text \<open>
  \<^verbatim>\<open>axios.get\<close> rejects on a transport failure and on a status outside 2xx; the
  \<^verbatim>\<open>JSDOM\<close> constructor is the HTML parser. Both are outside the repository.
\<close>

record 'w scrape_io = "'w retry_io" +
  axios_get :: "string \<Rightarrow> 'w \<Rightarrow> (js_error + string) \<times> 'w"
  JSDOM :: "string \<Rightarrow> js_error + node"

text \<open>The body of the \<^verbatim>\<open>try\<close> block, then the function with its \<^verbatim>\<open>catch\<close>.\<close>

definition fetchNews_try ::
  "('w, 'z) scrape_io_scheme \<Rightarrow> string \<Rightarrow> 'w \<Rightarrow> (js_error + News list) \<times> 'w" where
  "fetchNews_try io url w =
     (case axios_get io url w of
        (Inl error, w') \<Rightarrow> (Inl error, w')
      | (Inr siteFetch, w') \<Rightarrow>
          (case JSDOM io siteFetch of
             Inl error \<Rightarrow> (Inl error, w')
           | Inr doc \<Rightarrow> (Inr (headers_loop (querySelectorAll_h3 doc) []), w')))"

definition fetchNews ::
  "('w, 'z) scrape_io_scheme \<Rightarrow> string \<Rightarrow> 'w \<Rightarrow> (js_error + News list) \<times> 'w" where
  "fetchNews io url w =
     (case fetchNews_try io url w of
        (Inl error, w') \<Rightarrow> (Inr [], w')
      | (Inr news, w') \<Rightarrow> (Inr news, w'))"

section \<open>The writers (src/rss.ts, src/html.ts)\<close>

record Post = News +
  date :: string

text \<open>
  \<^verbatim>\<open>new Date(s).getTime()\<close> is \<open>Date_parse s\<close>, with \<open>None\<close> for \<^verbatim>\<open>NaN\<close> (an invalid date).
  The comparator of both writers is \<^verbatim>\<open>second - first\<close> on these times; a \<^verbatim>\<open>NaN\<close> result
  counts as \<open>0\<close> in \<^verbatim>\<open>Array.prototype.sort\<close>.
\<close>

definition comparePosts :: "(string \<Rightarrow> int option) \<Rightarrow> ('a Post_scheme) \<Rightarrow> ('a Post_scheme) \<Rightarrow> int" where
  "comparePosts Date_parse first second =
     (case (Date_parse (date second), Date_parse (date first)) of
        (Some s, Some f) \<Rightarrow> s - f
      | _ \<Rightarrow> 0)"

text \<open>
  \<^verbatim>\<open>Array.prototype.sort\<close> is stable (ECMAScript 2019): elements the comparator calls
  equal keep their order. For a comparator that is a consistent ordering the result is
  determined, and a stable insertion sort computes it. The array is sorted in place:
  the caller's array is reordered too.
\<close>

fun insort_by :: "('a \<Rightarrow> 'a \<Rightarrow> int) \<Rightarrow> 'a \<Rightarrow> 'a list \<Rightarrow> 'a list" where
  "insort_by cmp x [] = [x]"
| "insort_by cmp x (y # ys) = (if cmp x y \<le> 0 then x # y # ys else y # insort_by cmp x ys)"

definition Array_sort :: "('a \<Rightarrow> 'a \<Rightarrow> int) \<Rightarrow> 'a list \<Rightarrow> 'a list" where
  "Array_sort cmp xs = foldr (insort_by cmp) xs []"

text \<open>
  The rendering to XML and HTML text is not modelled: a written file is the feed name
  and the posts in the order they are rendered.
\<close>

datatype file_content =
    RssFeed string "Post list"
  | HtmlFeed string "Post list"

record 'w externals = "'w scrape_io" +
  writeFile :: "string \<Rightarrow> file_content \<Rightarrow> 'w \<Rightarrow> (js_error + unit) \<times> 'w"
  Date_parse :: "string \<Rightarrow> int option"
  Date_now :: "'w \<Rightarrow> int"

text \<open>
  Each writer returns its outcome, the contents of the array \<^verbatim>\<open>posts\<close> after the call
  (\<^verbatim>\<open>posts.sort\<close> has reordered it) and the new world.
\<close>

definition writeRssFeed ::
  "('w, 'z) externals_scheme \<Rightarrow> string \<Rightarrow> Post list \<Rightarrow> 'w \<Rightarrow> (js_error + unit) \<times> Post list \<times> 'w" where
  "writeRssFeed io feedName posts w =
     (if length posts = 0 then (Inl (Error (''No posts found for '' @ feedName)), posts, w)
      else
        (let sortedPosts = Array_sort (comparePosts (Date_parse io)) posts in
         case writeFile io (''./static/'' @ feedName @ ''.rss'') (RssFeed feedName sortedPosts) w of
           (r, w') \<Rightarrow> (r, sortedPosts, w')))"

text \<open>
  \<^verbatim>\<open>new Date(post.date).toISOString()\<close> throws a \<^verbatim>\<open>RangeError\<close> on an invalid date.
\<close>

definition RangeError :: "string \<Rightarrow> js_error" where
  "RangeError msg = \<lparr>is_Error = True, message = msg, response = None\<rparr>"

definition writeHtmlFeed ::
  "('w, 'z) externals_scheme \<Rightarrow> string \<Rightarrow> Post list \<Rightarrow> nat \<Rightarrow> 'w \<Rightarrow> (js_error + unit) \<times> Post list \<times> 'w" where
  "writeHtmlFeed io feedName posts maxArticles w =
     (if length posts = 0 then (Inl (Error (''No posts found for '' @ feedName)), posts, w)
      else
        (let posts' = Array_sort (comparePosts (Date_parse io)) posts;
             sortedPosts = take maxArticles posts' in
         if \<exists>post \<in> set sortedPosts. Date_parse io (date post) = None
         then (Inl (RangeError ''Invalid time value''), posts', w)
         else
           (case writeFile io (''./static/'' @ feedName @ ''.html'') (HtmlFeed feedName sortedPosts) w of
              (r, w') \<Rightarrow> (r, posts', w'))))"

section \<open>The aggregator (src/index.ts)\<close>

definition RSS_BASE_URL :: string where
  "RSS_BASE_URL = ''https://tldr.tech/api/rss''"

text \<open>
  \<^verbatim>\<open>parseInt(process.env.MAX_DAYS || "10", 10)\<close>: the environment maps names to strings,
  an unset variable is \<^verbatim>\<open>undefined\<close>, and \<^verbatim>\<open>||\<close> takes the default for \<^verbatim>\<open>undefined\<close> and for
  the empty string. The result is a number, \<open>None\<close> when it is \<^verbatim>\<open>NaN\<close>.
\<close>

definition MAX_DAYS :: "(string \<rightharpoonup> string) \<Rightarrow> int option" where
  "MAX_DAYS env =
     parseInt (case env ''MAX_DAYS'' of None \<Rightarrow> ''10'' | Some v \<Rightarrow> if v = [] then ''10'' else v)"

definition feeds :: "string list" where
  "feeds = [''tech'', ''dev'', ''ai'', ''infosec'', ''product'', ''devops'', ''founders'',
            ''design'', ''marketing'', ''crypto'', ''fintech'', ''data'']"

text \<open>
  A \<^verbatim>\<open>Date\<close> is its time value in milliseconds, \<open>None\<close> for an invalid date; a time
  value beyond \<open>8.64e15\<close> is invalid. \<^verbatim>\<open>cutoffDate.setDate(cutoffDate.getDate() - MAX_DAYS)\<close>
  moves the date back by whole calendar days of the local time zone; the model takes the
  zone's offset as constant over the window (as under UTC), so a day is 86400000 ms.
\<close>

definition msPerDay :: int where
  "msPerDay = 86400000"

definition TimeClip :: "int \<Rightarrow> int option" where
  "TimeClip t = (if \<bar>t\<bar> > 8640000000000000 then None else Some t)"

definition cutoffDate :: "int \<Rightarrow> int option \<Rightarrow> int option" where
  "cutoffDate now days =
     (case days of None \<Rightarrow> None | Some d \<Rightarrow> TimeClip (now - d * msPerDay))"

text \<open>The callback of \<^verbatim>\<open>rssNews.items.filter\<close> and the filter itself.\<close>

definition is_recent :: "(string \<Rightarrow> int option) \<Rightarrow> int \<Rightarrow> 'a Item_scheme \<Rightarrow> bool" where
  "is_recent parse cutoff item =
     (case isoDate item of
        None \<Rightarrow> False
      | Some d \<Rightarrow>
          if d = [] then False
          else (case parse d of None \<Rightarrow> False | Some itemDate \<Rightarrow> itemDate \<ge> cutoff))"

definition recentItems :: "(string \<Rightarrow> int option) \<Rightarrow> int \<Rightarrow> 'a Item_scheme list \<Rightarrow> 'a Item_scheme list" where
  "recentItems parse cutoff its = filter (is_recent parse cutoff) its"

text \<open>\<^verbatim>\<open>{ ...currentNews, date: item.isoDate }\<close>\<close>

definition with_date :: "string \<Rightarrow> News \<Rightarrow> Post" where
  "with_date d currentNews =
     \<lparr>title = title currentNews, link = link currentNews, content = content currentNews, date = d\<rparr>"

text \<open>
  The \<^verbatim>\<open>for (const item of recentItems)\<close> loop with its accumulator \<^verbatim>\<open>feedNews\<close>
  (lines 60 to 70).
\<close>

fun items_loop ::
  "('w, 'z) externals_scheme \<Rightarrow> Item list \<Rightarrow> Post list \<Rightarrow> 'w \<Rightarrow> (js_error + Post list) \<times> 'w" where
  "items_loop io [] feedNews w = (Inr feedNews, w)"
| "items_loop io (item # rest) feedNews w =
     (case (item_link item, isoDate item) of
        (Some l, Some d) \<Rightarrow>
          if l \<noteq> [] \<and> d \<noteq> [] then
            (case fetchNews io l w of
               (Inl error, w') \<Rightarrow> (Inl error, w')
             | (Inr news, w') \<Rightarrow> items_loop io rest (feedNews @ map (with_date d) news) w')
          else items_loop io rest feedNews w
      | _ \<Rightarrow> items_loop io rest feedNews w)"

text \<open>Lines 44 to 70 of the loop over the topics: one topic's list \<^verbatim>\<open>feedNews\<close>.\<close>

definition collect_feedNews ::
  "('w, 'z) externals_scheme \<Rightarrow> int \<Rightarrow> string \<Rightarrow> 'w \<Rightarrow> (js_error + Post list) \<times> 'w" where
  "collect_feedNews io cutoff feedName w =
     (case getRSSFeed io (RSS_BASE_URL @ ''/'' @ feedName) w of
        (Inl error, w') \<Rightarrow> (Inl error, w')
      | (Inr rssNews, w') \<Rightarrow>
          items_loop io (recentItems (Date_parse io) cutoff (items rssNews)) [] w')"

text \<open>
  Lines 72 and 73: both writers get the same array \<^verbatim>\<open>feedNews\<close>, each sorts it in
  place, and the array as they leave it is what line 75 reads.
\<close>

definition write_feedNews ::
  "('w, 'z) externals_scheme \<Rightarrow> string \<Rightarrow> Post list \<Rightarrow> 'w \<Rightarrow> (js_error + unit) \<times> Post list \<times> 'w" where
  "write_feedNews io feedName feedNews w =
     (case writeRssFeed io feedName feedNews w of
        (Inl error, feedNews', w') \<Rightarrow> (Inl error, feedNews', w')
      | (Inr _, feedNews', w') \<Rightarrow> writeHtmlFeed io feedName feedNews' 50 w')"

text \<open>
  The \<^verbatim>\<open>for (const feedName of feeds)\<close> loop with its accumulator \<^verbatim>\<open>dateWithNews\<close>. A
  rejected \<^verbatim>\<open>await\<close> leaves the loop and the function.
\<close>

fun feeds_loop ::
  "('w, 'z) externals_scheme \<Rightarrow> int \<Rightarrow> string list \<Rightarrow> Post list \<Rightarrow> 'w \<Rightarrow> (js_error + Post list) \<times> 'w" where
  "feeds_loop io cutoff [] dateWithNews w = (Inr dateWithNews, w)"
| "feeds_loop io cutoff (feedName # rest) dateWithNews w =
     (case collect_feedNews io cutoff feedName w of
        (Inl error, w1) \<Rightarrow> (Inl error, w1)
      | (Inr feedNews, w1) \<Rightarrow>
          (case write_feedNews io feedName feedNews w1 of
             (Inl error, feedNews', w2) \<Rightarrow> (Inl error, w2)
           | (Inr _, feedNews', w2) \<Rightarrow> feeds_loop io cutoff rest (dateWithNews @ feedNews') w2))"

text \<open>
  \<^verbatim>\<open>fetchFeeds\<close>: the log line of lines 39 to 41 calls \<^verbatim>\<open>cutoffDate.toISOString()\<close>, which
  throws on an invalid date. The combined list goes to \<^verbatim>\<open>writeRssFeed("feed", ...)\<close>; the
  value returned is the same array after that call.
\<close>

definition fetchFeeds ::
  "('w, 'z) externals_scheme \<Rightarrow> int option \<Rightarrow> string list \<Rightarrow> 'w \<Rightarrow> (js_error + Post list) \<times> 'w" where
  "fetchFeeds io days topics w =
     (case cutoffDate (Date_now io w) days of
        None \<Rightarrow> (Inl (RangeError ''Invalid time value''), w)
      | Some cutoff \<Rightarrow>
          (case feeds_loop io cutoff topics [] w of
             (Inl error, w') \<Rightarrow> (Inl error, w')
           | (Inr dateWithNews, w') \<Rightarrow>
               (case writeRssFeed io ''feed'' dateWithNews w' of
                  (Inl error, dateWithNews', w'') \<Rightarrow> (Inl error, w'')
                | (Inr _, dateWithNews', w'') \<Rightarrow> (Inr dateWithNews', w''))))"

section \<open>Notions the claims are stated with\<close>

text \<open>
  A candidate of the scraper is complete when its title, its link and its content are
  all there and non-empty; \<open>article\<close> is the entry made of the three.
\<close>

definition complete :: "node \<times> node option \<times> node option \<Rightarrow> bool" where
  "complete cand =
     (case cand of (header, parent, grandparent) \<Rightarrow>
        textContent header \<noteq> [] \<and>
        (case header_link parent of None \<Rightarrow> False | Some l \<Rightarrow> l \<noteq> []) \<and>
        (case header_content grandparent of None \<Rightarrow> False | Some c \<Rightarrow> c \<noteq> []))"

definition article :: "node \<times> node option \<times> node option \<Rightarrow> News" where
  "article cand =
     (case cand of (header, parent, grandparent) \<Rightarrow>
        \<lparr>title = textContent header,
         link = (case header_link parent of None \<Rightarrow> [] | Some l \<Rightarrow> l),
         content = (case header_content grandparent of None \<Rightarrow> [] | Some c \<Rightarrow> c)\<rparr>)"

text \<open>
  The lists \<^verbatim>\<open>feedNews\<close> that a run of the loop over the topics builds, one per topic
  reached, each as line 67 appended it (before the writers see it). The recursion is
  that of \<open>feeds_loop\<close>.
\<close>

fun topic_lists ::
  "('w, 'z) externals_scheme \<Rightarrow> int \<Rightarrow> string list \<Rightarrow> 'w \<Rightarrow> Post list list" where
  "topic_lists io cutoff [] w = []"
| "topic_lists io cutoff (feedName # rest) w =
     (case collect_feedNews io cutoff feedName w of
        (Inl error, w1) \<Rightarrow> []
      | (Inr feedNews, w1) \<Rightarrow>
          feedNews #
          (case write_feedNews io feedName feedNews w1 of
             (Inl error, feedNews', w2) \<Rightarrow> []
           | (Inr _, feedNews', w2) \<Rightarrow> topic_lists io cutoff rest w2))"

text \<open>Newest first: the key by which a list of posts with valid dates is ordered.\<close>

definition newest_first :: "(string \<Rightarrow> int option) \<Rightarrow> 'a Post_scheme \<Rightarrow> int" where
  "newest_first parse post = (case parse (date post) of None \<Rightarrow> 0 | Some t \<Rightarrow> - t)"

section \<open>A simulated site\<close>

text \<open>
  A world that records what the program does to it: the feeds parsed, the pages
  fetched and the files written, each in order. The site is given by its feeds, its
  pages and the documents the pages parse to.
\<close>

record sim =
  parsed :: "string list"
  fetched :: "string list"
  written :: "(string \<times> file_content) list"

definition sim0 :: sim where
  "sim0 = \<lparr>parsed = [], fetched = [], written = []\<rparr>"

definition sim_io ::
  "(string \<Rightarrow> js_error + Output) \<Rightarrow> (string \<Rightarrow> js_error + string) \<Rightarrow>
   (string \<Rightarrow> js_error + node) \<Rightarrow> (string \<Rightarrow> int option) \<Rightarrow> int \<Rightarrow> sim externals" where
  "sim_io feed_of page_of dom_of parse now =
     \<lparr>parseURL = (\<lambda>feed w. (feed_of feed, w\<lparr>parsed := parsed w @ [feed]\<rparr>)),
      setTimeout = (\<lambda>ms w. w),
      axios_get = (\<lambda>url w. (page_of url, w\<lparr>fetched := fetched w @ [url]\<rparr>)),
      JSDOM = dom_of,
      writeFile = (\<lambda>path c w. (Inr (), w\<lparr>written := written w @ [(path, c)]\<rparr>)),
      Date_parse = parse,
      Date_now = (\<lambda>w. now)\<rparr>"

text \<open>
  Dates of the example: the run is on 3 January 2024, and the dates that parse are
  those of the table.
\<close>

definition demo_now :: int where
  "demo_now = 1704240000000"

definition demo_parse :: "string \<Rightarrow> int option" where
  "demo_parse = map_of
     [(''2024-01-01T00:00:00.000Z'', 1704067200000),
      (''2024-01-02T00:00:00.000Z'', 1704153600000),
      (''2023-12-29T00:00:00.000Z'', 1703808000000),
      (''2023-12-24T00:00:00.000Z'', 1703376000000)]"

text \<open>
  A listing page in the shape the scraper expects: per entry an \<^verbatim>\<open>article\<close> element with
  a link around the \<^verbatim>\<open>h3\<close> and a \<^verbatim>\<open>div\<close> of content.
\<close>

definition entry :: "(string \<times> string) list \<Rightarrow> string \<Rightarrow> string \<Rightarrow> node" where
  "entry attrs t c =
     Element ''article'' []
       [Element ''a'' attrs [Element ''h3'' [] [Text t]],
        Element ''div'' [(''class'', ''newsletter-html'')] [Text c]]"

definition page :: "node list \<Rightarrow> node" where
  "page entries = Element ''html'' [] [Element ''head'' [] [], Element ''body'' [] entries]"

definition listing :: node where
  "listing = page
     [entry [(''href'', ''https://a.example/1'')] ''First'' ''About the first'',
      entry [] ''Second'' ''About the second'',
      entry [(''href'', ''https://a.example/3'')] ''Third'' ''About the third'',
      entry [(''href'', ''https://a.example/4'')] ''Fourth'' '''']"

definition old_page :: node where
  "old_page = page [entry [(''href'', ''https://a.example/old'')] ''Older'' ''From 1 January'']"

definition new_page :: node where
  "new_page = page [entry [(''href'', ''https://a.example/new'')] ''Newer'' ''From 2 January'']"

definition network_error :: js_error where
  "network_error = \<lparr>is_Error = True, message = ''getaddrinfo ENOTFOUND'', response = None\<rparr>"

text \<open>
  The site: one feed, \<^verbatim>\<open>tech\<close>, whose items are listed oldest first, and the pages the
  items link to. A page's text stands for itself; \<open>demo_dom\<close> is the parser on these
  texts.
\<close>

definition unlinked_item :: Item where
  "unlinked_item = \<lparr>item_link = Some [], isoDate = Some ''2024-01-02T00:00:00.000Z''\<rparr>"

definition older_item :: Item where
  "older_item = \<lparr>item_link = Some ''https://tldr.tech/tech/2024-01-01'', isoDate = Some ''2024-01-01T00:00:00.000Z''\<rparr>"

definition newer_item :: Item where
  "newer_item = \<lparr>item_link = Some ''https://tldr.tech/tech/2024-01-02'', isoDate = Some ''2024-01-02T00:00:00.000Z''\<rparr>"

definition demo_items :: "Item list" where
  "demo_items = [older_item, newer_item]"

definition demo_feed :: "string \<Rightarrow> js_error + Output" where
  "demo_feed url =
     (if url = ''https://tldr.tech/api/rss/tech'' then Inr \<lparr>items = demo_items\<rparr>
      else Inl error404)"

definition demo_page :: "string \<Rightarrow> js_error + string" where
  "demo_page url =
     (if url = ''https://tldr.tech/tech/2024-01-01'' then Inr ''old''
      else if url = ''https://tldr.tech/tech/2024-01-02'' then Inr ''new''
      else if url = ''https://tldr.tech/tech/listing'' then Inr ''listing''
      else Inl network_error)"

definition demo_dom :: "string \<Rightarrow> js_error + node" where
  "demo_dom text =
     (if text = ''old'' then Inr old_page
      else if text = ''new'' then Inr new_page
      else Inr listing)"

definition demo_io :: "sim externals" where
  "demo_io = sim_io demo_feed demo_page demo_dom demo_parse demo_now"

definition older_post :: Post where
  "older_post = \<lparr>title = ''Older'', link = ''https://a.example/old'', content = ''From 1 January'',
     date = ''2024-01-01T00:00:00.000Z''\<rparr>"

definition newer_post :: Post where
  "newer_post = \<lparr>title = ''Newer'', link = ''https://a.example/new'', content = ''From 2 January'',
     date = ''2024-01-02T00:00:00.000Z''\<rparr>"

text \<open>
  The items of the date filter's example: published 2, 10 and 5 days before the run,
  and one whose date does not parse.
\<close>

definition aged_items :: "Item list" where
  "aged_items =
     [\<lparr>item_link = Some ''https://example.com/1'', isoDate = Some ''2024-01-01T00:00:00.000Z''\<rparr>,
      \<lparr>item_link = Some ''https://example.com/2'', isoDate = Some ''2023-12-24T00:00:00.000Z''\<rparr>,
      \<lparr>item_link = Some ''https://example.com/3'', isoDate = Some ''2023-12-29T00:00:00.000Z''\<rparr>,
      \<lparr>item_link = Some ''https://example.com/4'', isoDate = None\<rparr>,
      \<lparr>item_link = Some ''https://example.com/5'', isoDate = Some ''yesterday''\<rparr>]"

text \<open>The cutoff of the run with the default window of 10 days: 24 December 2023.\<close>

definition demo_cutoff :: int where
  "demo_cutoff = 1703376000000"

section \<open>What \<^verbatim>\<open>parseInt\<close> reads\<close>

text \<open>
  A string that starts with decimal digits is read as the number they spell, whatever
  follows them; a string whose first character is neither white space, a sign nor a
  digit is not a number.
\<close>

lemma digit_not_space: "isDigit c \<Longrightarrow> \<not> isWhiteSpace c"
  by (auto simp: isDigit_def isWhiteSpace_def)

lemma digit_not_sign: "isDigit c \<Longrightarrow> c \<noteq> CHR ''+'' \<and> c \<noteq> CHR ''-''"
  by (auto simp: isDigit_def)

lemma parseInt_not_a_number:
  assumes "\<not> isWhiteSpace c" "\<not> isDigit c" "c \<noteq> CHR ''+''" "c \<noteq> CHR ''-''"
  shows "parseInt (c # cs) = None"
  using assms by (simp add: parseInt_def)

lemma parseInt_leading_integer:
  assumes "ds \<noteq> []" "\<forall>c \<in> set ds. isDigit c" "rest = [] \<or> \<not> isDigit (hd rest)"
  shows "parseInt (ds @ rest) = Some (int (digitsValue ds))"
proof -
  obtain c cs where ds: "ds = c # cs" using assms(1) by (cases ds) auto
  have c: "isDigit c" using assms(2) ds by simp
  have t: "takeWhile isDigit (ds @ rest) = ds"
    using assms(2,3) by (cases rest) (simp_all add: takeWhile_append2 takeWhile_eq_all_conv)
  have d: "dropWhile isWhiteSpace (ds @ rest) = ds @ rest" using digit_not_space [OF c] ds by simp
  show ?thesis
    unfolding parseInt_def d Let_def
    using digit_not_sign [OF c] t assms(1) by (simp add: ds)
qed

section \<open>The retry loop\<close>

text \<open>One turn of the loop, in each of its three outcomes.\<close>

declare getRSSFeed_loop.simps [simp del]

lemma loop_success:
  "attemptCount \<le> maxRetries \<Longrightarrow> parseURL io feed w = (Inr out, w') \<Longrightarrow>
   getRSSFeed_loop io feed attemptCount w = (Inr out, w')"
  by (simp add: getRSSFeed_loop.simps [of io feed attemptCount w])

lemma loop_throw:
  "attemptCount \<le> maxRetries \<Longrightarrow> parseURL io feed w = (Inl e, w') \<Longrightarrow>
   \<not> is429Error e \<or> maxRetries \<le> attemptCount \<Longrightarrow>
   getRSSFeed_loop io feed attemptCount w = (Inl e, w')"
  by (auto simp add: getRSSFeed_loop.simps [of io feed attemptCount w] Let_def)

lemma loop_retry:
  "attemptCount < maxRetries \<Longrightarrow> parseURL io feed w = (Inl e, w') \<Longrightarrow> is429Error e \<Longrightarrow>
   getRSSFeed_loop io feed attemptCount w =
   getRSSFeed_loop io feed (Suc attemptCount) (setTimeout io (delaySeconds e * 1000) w')"
  by (simp add: getRSSFeed_loop.simps [of io feed attemptCount w] Let_def)

lemma mock_loop:
  assumes "n - k = d" "k \<le> n" "n \<le> maxRetries" "calls w = k"
    and "\<forall>i. k \<le> i \<and> i < n \<longrightarrow> rate_limited (script i)"
    and "\<not> rate_limited (script n) \<or> n = maxRetries"
  shows "getRSSFeed_loop (mock_io script) feed k w =
         (script n, w\<lparr>calls := Suc n, timeouts := timeouts w @ map (\<lambda>i. delayMs (script i)) [k..<n]\<rparr>)"
  using assms
proof (induction d arbitrary: k w)
  case 0
  then have kn: "k = n" by simp
  have p: "parseURL (mock_io script) feed w = (script n, w\<lparr>calls := Suc n\<rparr>)"
    using 0 kn by (simp add: mock_io_def)
  show ?case
  proof (cases "script n")
    case (Inl e)
    then have "\<not> is429Error e \<or> maxRetries \<le> k"
      using 0 kn by (auto simp: rate_limited_def)
    then show ?thesis
      using loop_throw [of k "mock_io script" feed w e "w\<lparr>calls := Suc n\<rparr>"] p Inl 0 kn by simp
  next
    case (Inr out)
    then show ?thesis
      using loop_success [of k "mock_io script" feed w out "w\<lparr>calls := Suc n\<rparr>"] p 0 kn by simp
  qed
next
  case (Suc d)
  then have lt: "k < n" by simp
  then have "rate_limited (script k)" using Suc.prems by simp
  then obtain e where e: "script k = Inl e" "is429Error e"
    by (auto simp: rate_limited_def split: sum.splits)
  let ?w1 = "w\<lparr>calls := Suc k\<rparr>"
  let ?w2 = "setTimeout (mock_io script) (delaySeconds e * 1000) ?w1"
  have p: "parseURL (mock_io script) feed w = (Inl e, ?w1)"
    using Suc.prems e by (simp add: mock_io_def)
  have step: "getRSSFeed_loop (mock_io script) feed k w = getRSSFeed_loop (mock_io script) feed (Suc k) ?w2"
    using loop_retry [OF _ p e(2)] lt Suc.prems by simp
  have c2: "calls ?w2 = Suc k" by (simp add: mock_io_def)
  have ih: "getRSSFeed_loop (mock_io script) feed (Suc k) ?w2 =
        (script n, ?w2\<lparr>calls := Suc n, timeouts := timeouts ?w2 @ map (\<lambda>i. delayMs (script i)) [Suc k..<n]\<rparr>)"
    using Suc.IH [of "Suc k" ?w2] Suc.prems lt c2 by simp
  have "[k..<n] = k # [Suc k..<n]" using lt by (simp add: upt_conv_Cons)
  then show ?case
    using step ih e by (simp add: mock_io_def delayMs_def)
qed

lemma mock_run_at:
  assumes "n \<le> maxRetries" "\<forall>i<n. rate_limited (script i)"
    "\<not> rate_limited (script n) \<or> n = maxRetries"
  shows "getRSSFeed (mock_io script) feed trace0 =
       (script n, \<lparr>calls = Suc n, timeouts = map (\<lambda>i. delayMs (script i)) [0..<n]\<rparr>)"
  using mock_loop [of n 0 n trace0 script feed] assms by (simp add: getRSSFeed_def trace0_def)

text \<open>
  Claim C1. When the first \<open>n \<le> 6\<close> attempts fail with a rate-limit error and the next
  one succeeds, \<^verbatim>\<open>getRSSFeed\<close> returns that parse result after exactly \<open>n + 1\<close> calls of
  \<^verbatim>\<open>parseURL\<close>. When seven attempts in a row fail with a rate-limit error, it fails with
  the error of the seventh after exactly 7 calls: there is no eighth, whatever the
  script would answer to it.
\<close>

theorem getRSSFeed_attempt_budget:
  "(n \<le> 6 \<and> (\<forall>i<n. rate_limited (script i)) \<and> script n = Inr out \<longrightarrow>
      fst (getRSSFeed (mock_io script) feed trace0) = Inr out \<and>
      calls (snd (getRSSFeed (mock_io script) feed trace0)) = n + 1) \<and>
   ((\<forall>i<7. rate_limited (script i)) \<longrightarrow>
      (\<exists>e. script 6 = Inl e \<and> fst (getRSSFeed (mock_io script) feed trace0) = Inl e) \<and>
      calls (snd (getRSSFeed (mock_io script) feed trace0)) = 7)"
proof (intro conjI impI)
  assume a: "n \<le> 6 \<and> (\<forall>i<n. rate_limited (script i)) \<and> script n = Inr out"
  then have "\<not> rate_limited (script n)" by (simp add: rate_limited_def)
  then have run: "getRSSFeed (mock_io script) feed trace0 =
       (script n, \<lparr>calls = Suc n, timeouts = map (\<lambda>i. delayMs (script i)) [0..<n]\<rparr>)"
    using a by (intro mock_run_at) (simp_all add: maxRetries_def)
  show "fst (getRSSFeed (mock_io script) feed trace0) = Inr out" using run a by simp
  show "calls (snd (getRSSFeed (mock_io script) feed trace0)) = n + 1" using run by simp
next
  assume a: "\<forall>i<7. rate_limited (script i)"
  then have "\<forall>i<6. rate_limited (script i)" by simp
  then have run: "getRSSFeed (mock_io script) feed trace0 =
       (script 6, \<lparr>calls = Suc 6, timeouts = map (\<lambda>i. delayMs (script i)) [0..<6]\<rparr>)"
    by (intro mock_run_at) (simp_all add: maxRetries_def)
  from a have "rate_limited (script 6)" by simp
  then obtain e where "script 6 = Inl e" by (auto simp: rate_limited_def split: sum.splits)
  then show "\<exists>e. script 6 = Inl e \<and> fst (getRSSFeed (mock_io script) feed trace0) = Inl e"
    using run by simp
  show "calls (snd (getRSSFeed (mock_io script) feed trace0)) = 7" using run by simp
qed

lemma rl429: "rate_limited (Inl error429)"
  by (simp add: rate_limited_def is429Error_def error429_def)

theorem getRSSFeed_attempt_budget_witness:
  "(fst (getRSSFeed (mock_io (success_after 4)) ''https://example.com/rss'' trace0) = Inr \<lparr>items = []\<rparr> \<and>
    calls (snd (getRSSFeed (mock_io (success_after 4)) ''https://example.com/rss'' trace0)) = 5) \<and>
   (fst (getRSSFeed (mock_io (\<lambda>i. Inl error429)) ''https://example.com/rss'' trace0) = Inl error429 \<and>
    calls (snd (getRSSFeed (mock_io (\<lambda>i. Inl error429)) ''https://example.com/rss'' trace0)) = 7)"
  using getRSSFeed_attempt_budget [of 4 "success_after 4" "\<lparr>items = []\<rparr>" "''https://example.com/rss''"]
    getRSSFeed_attempt_budget [of 0 "\<lambda>i. Inl error429" "\<lparr>items = []\<rparr>" "''https://example.com/rss''"]
  by (simp add: success_after_def rl429)

lemma str_includes_iff: "str_includes s sub \<longleftrightarrow> (\<exists>ps ss. s = ps @ sub @ ss)"
proof (induction s)
  case Nil
  then show ?case by auto
next
  case (Cons c cs)
  show ?case
  proof
    assume "str_includes (c # cs) sub"
    then consider "prefix sub (c # cs)" | "str_includes cs sub" by auto
    then show "\<exists>ps ss. c # cs = ps @ sub @ ss"
    proof cases
      case 1
      then obtain ss where "c # cs = sub @ ss" by (auto simp: prefix_def)
      then have "c # cs = [] @ sub @ ss" by simp
      then show ?thesis by blast
    next
      case 2
      then obtain ps ss where "cs = ps @ sub @ ss" using Cons.IH by blast
      then have "c # cs = (c # ps) @ sub @ ss" by simp
      then show ?thesis by blast
    qed
  next
    assume "\<exists>ps ss. c # cs = ps @ sub @ ss"
    then obtain ps ss where eq: "c # cs = ps @ sub @ ss" by blast
    show "str_includes (c # cs) sub"
    proof (cases ps)
      case Nil
      then have "prefix sub (c # cs)" using eq by (simp add: prefix_def)
      then show ?thesis by simp
    next
      case (Cons p ps')
      then have "cs = ps' @ sub @ ss" using eq by simp
      then have "str_includes cs sub" using Cons.IH by blast
      then show ?thesis by simp
    qed
  qed
qed

lemma mock_run:
  obtains n where "n \<le> maxRetries" "\<forall>i<n. rate_limited (script i)"
    "\<not> rate_limited (script n) \<or> n = maxRetries"
    "getRSSFeed (mock_io script) feed trace0 =
       (script n, \<lparr>calls = Suc n, timeouts = map (\<lambda>i. delayMs (script i)) [0..<n]\<rparr>)"
proof -
  let ?P = "\<lambda>n. \<not> rate_limited (script n) \<or> n = maxRetries"
  define n where "n = (LEAST n. ?P n)"
  have ex: "?P maxRetries" by simp
  have Pn: "?P n" unfolding n_def using ex by (rule LeastI)
  have le: "n \<le> maxRetries" unfolding n_def using ex by (rule Least_le)
  have before: "\<forall>i<n. rate_limited (script i)"
  proof (intro allI impI)
    fix i assume "i < n"
    then have "\<not> ?P i" unfolding n_def by (rule not_less_Least)
    then show "rate_limited (script i)" by simp
  qed
  have "getRSSFeed (mock_io script) feed trace0 =
       (script n, \<lparr>calls = Suc n, timeouts = map (\<lambda>i. delayMs (script i)) [0..<n]\<rparr>)"
    using le before Pn by (rule mock_run_at)
  with le before Pn show ?thesis using that by blast
qed

lemma run_all_429:
  "getRSSFeed (mock_io (\<lambda>i. Inl error429)) feed trace0 =
     (Inl error429, \<lparr>calls = 7, timeouts = [1000, 1000, 1000, 1000, 1000, 1000]\<rparr>)"
proof -
  have "[0..<6] = [0, 1, 2, 3, 4, 5::nat]" by (simp add: upt_rec)
  then show ?thesis
    using mock_run_at [of 6 "\<lambda>i. Inl error429" feed] rl429
    by (simp add: maxRetries_def delayMs_def delaySeconds_def retryAfter_def error429_def parseInt_def
        isWhiteSpace_def isDigit_def digitsValue_def digitValue_def)
qed

text \<open>
  Claim C2, as stated, says that a failed attempt is retried exactly when its error is
  a rate-limit signal. The seventh attempt is a failed attempt with such an error and
  is not retried: among seven 429 failures, attempt 6 (counting from 0) is made and no
  attempt 7 follows.
\<close>

theorem retried_iff_rate_limited_counterexample:
  "\<not> (\<forall>script k e. k < calls (snd (getRSSFeed (mock_io script) ''https://tldr.tech/api/rss/tech'' trace0)) \<and>
         script k = Inl e \<longrightarrow>
         (Suc k < calls (snd (getRSSFeed (mock_io script) ''https://tldr.tech/api/rss/tech'' trace0))) = is429Error e)"
proof
  assume a: "\<forall>script k e. k < calls (snd (getRSSFeed (mock_io script) ''https://tldr.tech/api/rss/tech'' trace0)) \<and>
         script k = Inl e \<longrightarrow>
         (Suc k < calls (snd (getRSSFeed (mock_io script) ''https://tldr.tech/api/rss/tech'' trace0))) = is429Error e"
  have "is429Error error429" using rl429 by (simp add: rate_limited_def)
  then show False
    using a [rule_format, of 6 "\<lambda>i. Inl error429" error429] by (simp add: run_all_429)
qed

text \<open>
  Claim C2, amended. An error is a rate-limit signal exactly when its response status
  is 429 or it is an \<^verbatim>\<open>Error\<close> whose message contains \<open>Status code 429\<close>. A failed
  attempt \<open>k\<close> (from 0) is followed by another attempt exactly when its error is such a
  signal and it is not the seventh attempt; otherwise its error is the result and it
  was the last attempt. So a failure of the first attempt that is no rate-limit signal
  ends the call after exactly 1 attempt and no wait.
\<close>

theorem retry_decision:
  "(is429Error e \<longleftrightarrow>
      (\<exists>r. response e = Some r \<and> status r = Some 429) \<or>
      (is_Error e \<and> (\<exists>ps ss. message e = ps @ ''Status code 429'' @ ss))) \<and>
   (k < calls (snd (getRSSFeed (mock_io script) feed trace0)) \<and> script k = Inl e \<longrightarrow>
      (if is429Error e \<and> k < 6
       then Suc k < calls (snd (getRSSFeed (mock_io script) feed trace0))
       else getRSSFeed (mock_io script) feed trace0 =
              (Inl e, \<lparr>calls = Suc k, timeouts = map (\<lambda>i. delayMs (script i)) [0..<k]\<rparr>))) \<and>
   (script 0 = Inl e \<and> \<not> is429Error e \<longrightarrow>
      getRSSFeed (mock_io script) feed trace0 = (Inl e, \<lparr>calls = 1, timeouts = []\<rparr>))"
proof (intro conjI impI)
  show "is429Error e \<longleftrightarrow>
      (\<exists>r. response e = Some r \<and> status r = Some 429) \<or>
      (is_Error e \<and> (\<exists>ps ss. message e = ps @ ''Status code 429'' @ ss))"
    by (auto simp: is429Error_def str_includes_iff split: option.splits)
next
  assume a: "k < calls (snd (getRSSFeed (mock_io script) feed trace0)) \<and> script k = Inl e"
  obtain n where n: "n \<le> maxRetries" "\<forall>i<n. rate_limited (script i)"
    "\<not> rate_limited (script n) \<or> n = maxRetries"
    "getRSSFeed (mock_io script) feed trace0 =
       (script n, \<lparr>calls = Suc n, timeouts = map (\<lambda>i. delayMs (script i)) [0..<n]\<rparr>)"
    by (rule mock_run)
  from a n(4) have kn: "k \<le> n" by simp
  show "if is429Error e \<and> k < 6
       then Suc k < calls (snd (getRSSFeed (mock_io script) feed trace0))
       else getRSSFeed (mock_io script) feed trace0 =
              (Inl e, \<lparr>calls = Suc k, timeouts = map (\<lambda>i. delayMs (script i)) [0..<k]\<rparr>)"
  proof (cases "k = n")
    case True
    then have "\<not> is429Error e \<or> k = 6"
      using n(3) a by (auto simp: rate_limited_def maxRetries_def)
    then show ?thesis using True n(4) a by auto
  next
    case False
    then have lt: "k < n" using kn by simp
    then have "rate_limited (script k)" using n(2) by simp
    then have "is429Error e" using a by (simp add: rate_limited_def)
    moreover have "k < 6" using lt n(1) by (simp add: maxRetries_def)
    ultimately show ?thesis using lt n(4) by simp
  qed
next
  assume a: "script 0 = Inl e \<and> \<not> is429Error e"
  then have "\<not> rate_limited (script 0)" by (simp add: rate_limited_def)
  then show "getRSSFeed (mock_io script) feed trace0 = (Inl e, \<lparr>calls = 1, timeouts = []\<rparr>)"
    using mock_run_at [of 0 script feed] a by simp
qed


lemma mock_calls_pos: "0 < calls (snd (getRSSFeed (mock_io script) feed trace0))"
proof -
  obtain n where "getRSSFeed (mock_io script) feed trace0 =
       (script n, \<lparr>calls = Suc n, timeouts = map (\<lambda>i. delayMs (script i)) [0..<n]\<rparr>)"
    by (rule mock_run)
  then show ?thesis by simp
qed

lemma rl404: "\<not> is429Error error404"
  by (simp add: is429Error_def error404_def)

lemma rl429_message: "is429Error error429_message_only"
  by (simp add: is429Error_def error429_message_only_def Error_def)

theorem retry_decision_witness:
  "is429Error error429_message_only \<and> \<not> is429Error error404 \<and>
   getRSSFeed (mock_io (\<lambda>i. Inl error404)) ''https://example.com/rss'' trace0 =
     (Inl error404, \<lparr>calls = 1, timeouts = []\<rparr>) \<and>
   Suc 0 < calls (snd (getRSSFeed (mock_io (success_after 2)) ''https://example.com/rss'' trace0))"
proof -
  have "message error429_message_only = [] @ ''Status code 429'' @ []"
    by (simp add: error429_message_only_def Error_def)
  then have "\<exists>ps ss. message error429_message_only = ps @ ''Status code 429'' @ ss"
    by (intro exI)
  then have "is_Error error429_message_only \<and>
        (\<exists>ps ss. message error429_message_only = ps @ ''Status code 429'' @ ss)"
    by (simp add: error429_message_only_def Error_def)
  then have a: "is429Error error429_message_only"
    using retry_decision [of error429_message_only 0 "\<lambda>i. Inl error404" "''https://example.com/rss''",
        THEN conjunct1]
    by (rule_tac iffD2) (assumption, rule disjI2)
  have b: "getRSSFeed (mock_io (\<lambda>i. Inl error404)) ''https://example.com/rss'' trace0 =
     (Inl error404, \<lparr>calls = 1, timeouts = []\<rparr>)"
    using retry_decision [of error404 0 "\<lambda>i. Inl error404" "''https://example.com/rss''",
        THEN conjunct2, THEN conjunct2] rl404
    by simp
  have "is429Error error429" using rl429 by (simp add: rate_limited_def)
  then have c: "Suc 0 < calls (snd (getRSSFeed (mock_io (success_after 2)) ''https://example.com/rss'' trace0))"
    using retry_decision [of error429 0 "success_after 2" "''https://example.com/rss''",
        THEN conjunct2, THEN conjunct1]
      mock_calls_pos [of "success_after 2" "''https://example.com/rss''"]
    by (simp add: success_after_def)
  show ?thesis using a b c rl404 by simp
qed

lemma parseInt_Nil: "parseInt [] = None"
  by (simp add: parseInt_def)

lemma delaySeconds_eq:
  "delaySeconds e =
     (case retryAfter e of None \<Rightarrow> 30 | Some v \<Rightarrow> (case parseInt v of None \<Rightarrow> 30 | Some s \<Rightarrow> s))"
  by (simp add: delaySeconds_def parseInt_Nil split: option.splits)

text \<open>
  Claim C3. Every retried rate-limit failure is followed by exactly one wait: after
  attempt \<open>k\<close> fails with error \<open>e\<close> and attempt \<open>k + 1\<close> is made, the \<open>k\<close>-th delay
  asked of the timer is, in milliseconds, 1000 times the \<^verbatim>\<open>retry-after\<close> header as read
  by \<^verbatim>\<open>parseInt\<close> when the header is there and \<^verbatim>\<open>parseInt\<close> gives a number, and 1000 times
  30 when the header is absent or \<^verbatim>\<open>parseInt\<close> gives \<^verbatim>\<open>NaN\<close>.
\<close>

theorem retry_wait_duration:
  "Suc k < calls (snd (getRSSFeed (mock_io script) feed trace0)) \<and> script k = Inl e \<longrightarrow>
     length (timeouts (snd (getRSSFeed (mock_io script) feed trace0))) =
       calls (snd (getRSSFeed (mock_io script) feed trace0)) - 1 \<and>
     timeouts (snd (getRSSFeed (mock_io script) feed trace0)) ! k =
       1000 * (case retryAfter e of
                 None \<Rightarrow> 30
               | Some v \<Rightarrow> (case parseInt v of None \<Rightarrow> 30 | Some s \<Rightarrow> s))"
proof
  assume a: "Suc k < calls (snd (getRSSFeed (mock_io script) feed trace0)) \<and> script k = Inl e"
  obtain n where n: "getRSSFeed (mock_io script) feed trace0 =
       (script n, \<lparr>calls = Suc n, timeouts = map (\<lambda>i. delayMs (script i)) [0..<n]\<rparr>)"
    by (rule mock_run)
  from a n have lt: "k < n" by simp
  have "timeouts (snd (getRSSFeed (mock_io script) feed trace0)) ! k = delayMs (script k)"
    using n lt by simp
  also have "\<dots> = 1000 * delaySeconds e" using a by (simp add: delayMs_def)
  finally have "timeouts (snd (getRSSFeed (mock_io script) feed trace0)) ! k =
       1000 * (case retryAfter e of
                 None \<Rightarrow> 30
               | Some v \<Rightarrow> (case parseInt v of None \<Rightarrow> 30 | Some s \<Rightarrow> s))"
    by (simp only: delaySeconds_eq)
  moreover have "length (timeouts (snd (getRSSFeed (mock_io script) feed trace0))) =
       calls (snd (getRSSFeed (mock_io script) feed trace0)) - 1"
    using n by simp
  ultimately show "length (timeouts (snd (getRSSFeed (mock_io script) feed trace0))) =
       calls (snd (getRSSFeed (mock_io script) feed trace0)) - 1 \<and>
     timeouts (snd (getRSSFeed (mock_io script) feed trace0)) ! k =
       1000 * (case retryAfter e of
                 None \<Rightarrow> 30
               | Some v \<Rightarrow> (case parseInt v of None \<Rightarrow> 30 | Some s \<Rightarrow> s))"
    by simp
qed

lemma parseInt_1: "parseInt ''1'' = Some 1"
  by (simp add: parseInt_def isWhiteSpace_def isDigit_def digitsValue_def digitValue_def)

lemma parseInt_date: "parseInt ''Wed, 21 Oct 2015 07:28:00 GMT'' = None"
  by (simp add: parseInt_def isWhiteSpace_def isDigit_def)

lemma hint_429: "retryAfter error429 = Some ''1''"
  by (simp add: retryAfter_def error429_def)

lemma hint_message_only: "retryAfter error429_message_only = None"
  by (simp add: retryAfter_def error429_message_only_def Error_def)

lemma hint_bad: "retryAfter error429_bad_hint = Some ''Wed, 21 Oct 2015 07:28:00 GMT''"
  by (simp add: retryAfter_def error429_bad_hint_def)

lemma run_hints:
  "getRSSFeed (mock_io hints_script) feed trace0 =
     (Inr \<lparr>items = []\<rparr>, \<lparr>calls = 4, timeouts = [1000, 30000, 30000]\<rparr>)"
proof -
  have s0: "hints_script 0 = Inl error429" by (simp add: hints_script_def)
  have s1: "hints_script (Suc 0) = Inl error429_message_only" by (simp add: hints_script_def)
  have s2: "hints_script 2 = Inl error429_bad_hint" by (simp add: hints_script_def)
  have s3: "hints_script 3 = Inr \<lparr>items = []\<rparr>" by (simp add: hints_script_def)
  have bad: "is429Error error429_bad_hint"
    by (simp add: is429Error_def error429_bad_hint_def)
  have r: "\<forall>i<3. rate_limited (hints_script i)"
  proof (intro allI impI)
    fix i :: nat assume "i < 3"
    then consider "i = 0" | "i = 1" | "i = 2" by linarith
    then show "rate_limited (hints_script i)"
      using rl429 rl429_message bad by cases (simp_all add: s0 s1 s2 rate_limited_def)
  qed
  have t: "\<not> rate_limited (hints_script 3)" by (simp add: s3 rate_limited_def)
  have d0: "delayMs (hints_script 0) = 1000"
    by (simp add: s0 delayMs_def delaySeconds_def hint_429 parseInt_1)
  have d1: "delayMs (hints_script (Suc 0)) = 30000"
    by (simp add: s1 delayMs_def delaySeconds_def hint_message_only)
  have d2: "delayMs (hints_script 2) = 30000"
    by (simp add: s2 delayMs_def delaySeconds_def hint_bad parseInt_date)
  have u: "[0..<3] = [0, 1, 2::nat]" by (simp add: upt_rec)
  have "getRSSFeed (mock_io hints_script) feed trace0 =
       (hints_script 3, \<lparr>calls = Suc 3, timeouts = map (\<lambda>i. delayMs (hints_script i)) [0..<3]\<rparr>)"
    using r t by (intro mock_run_at) (simp_all add: maxRetries_def)
  then show ?thesis by (simp add: u d0 d1 d2 s3)
qed

theorem retry_wait_duration_witness:
  "timeouts (snd (getRSSFeed (mock_io hints_script) ''https://example.com/rss'' trace0)) ! 0 = 1000 \<and>
   timeouts (snd (getRSSFeed (mock_io hints_script) ''https://example.com/rss'' trace0)) ! 1 = 30000 \<and>
   timeouts (snd (getRSSFeed (mock_io hints_script) ''https://example.com/rss'' trace0)) ! 2 = 30000 \<and>
   length (timeouts (snd (getRSSFeed (mock_io hints_script) ''https://example.com/rss'' trace0))) = 3"
proof -
  let ?run = "getRSSFeed (mock_io hints_script) ''https://example.com/rss'' trace0"
  have c: "calls (snd ?run) = 4" by (simp add: run_hints)
  have s0: "hints_script 0 = Inl error429" by (simp add: hints_script_def)
  have s1: "hints_script (Suc 0) = Inl error429_message_only" by (simp add: hints_script_def)
  have s2: "hints_script 2 = Inl error429_bad_hint" by (simp add: hints_script_def)
  have "timeouts (snd ?run) ! 0 = 1000 \<and> length (timeouts (snd ?run)) = 3"
    using retry_wait_duration [of 0 hints_script "''https://example.com/rss''" error429] c s0
    by (simp add: hint_429 parseInt_1)
  moreover have "timeouts (snd ?run) ! 1 = 30000"
    using retry_wait_duration [of 1 hints_script "''https://example.com/rss''" error429_message_only] c s1
    by (simp add: hint_message_only)
  moreover have "timeouts (snd ?run) ! 2 = 30000"
    using retry_wait_duration [of 2 hints_script "''https://example.com/rss''" error429_bad_hint] c s2
    by (simp add: hint_bad parseInt_date)
  ultimately show ?thesis by simp
qed

section \<open>Configuration, writers, scraper failures and items without a link\<close>

lemma parseInt_10: "parseInt ''10'' = Some 10"
  by (simp add: parseInt_def isWhiteSpace_def isDigit_def digitsValue_def digitValue_def)

lemma parseInt_abc: "parseInt ''abc'' = None"
  by (simp add: parseInt_def isWhiteSpace_def isDigit_def)

text \<open>
  Claim C4. The lookback window is 10 when \<^verbatim>\<open>MAX_DAYS\<close> is unset (and when it is
  empty), but a value that is not a number is handed to \<^verbatim>\<open>parseInt\<close> as it is: with
  \<^verbatim>\<open>MAX_DAYS=abc\<close> the window is \<^verbatim>\<open>NaN\<close>, not 10, the cutoff is an invalid date, and
  \<^verbatim>\<open>fetchFeeds\<close> fails at its first log line before any feed is fetched.
\<close>

theorem MAX_DAYS_non_numeric:
  "MAX_DAYS (Map.empty(''MAX_DAYS'' \<mapsto> ''abc'')) = None \<and>
   fetchFeeds io (MAX_DAYS (Map.empty(''MAX_DAYS'' \<mapsto> ''abc''))) feeds w =
     (Inl (RangeError ''Invalid time value''), w)"
  by (simp add: MAX_DAYS_def parseInt_abc fetchFeeds_def cutoffDate_def)

lemma MAX_DAYS_default:
  "MAX_DAYS Map.empty = Some 10 \<and> MAX_DAYS (Map.empty(''MAX_DAYS'' \<mapsto> '''')) = Some 10"
  by (simp add: MAX_DAYS_def parseInt_10)

text \<open>
  Claim C9. Given no posts, the RSS writer and the HTML writer each fail with the error
  \<open>No posts found for\<close> followed by the feed name, and leave the world as it was:
  \<^verbatim>\<open>writeFile\<close> is not called, whatever it would do.
\<close>

theorem writers_reject_empty:
  "writeRssFeed io feedName [] w = (Inl (Error (''No posts found for '' @ feedName)), [], w) \<and>
   writeHtmlFeed io feedName [] maxArticles w =
     (Inl (Error (''No posts found for '' @ feedName)), [], w) \<and>
   message (Error (''No posts found for '' @ feedName)) = ''No posts found for '' @ feedName"
  by (simp add: writeRssFeed_def writeHtmlFeed_def Error_def)

text \<open>
  Claim C8. \<^verbatim>\<open>fetchNews\<close> always returns a list, and it returns the empty list when
  \<^verbatim>\<open>axios.get\<close> rejects (a transport failure or a status outside 2xx) and when the
  page cannot be parsed.
\<close>

theorem fetchNews_never_throws:
  "(\<exists>news. fst (fetchNews io url w) = Inr news) \<and>
   (fst (axios_get io url w) = Inl e \<longrightarrow> fetchNews io url w = (Inr [], snd (axios_get io url w))) \<and>
   (fst (axios_get io url w) = Inr siteFetch \<and> JSDOM io siteFetch = Inl e \<longrightarrow>
      fetchNews io url w = (Inr [], snd (axios_get io url w)))"
  by (auto simp: fetchNews_def fetchNews_try_def split: prod.splits sum.splits)

lemma items_loop_append:
  "items_loop io (xs @ ys) feedNews w =
     (case items_loop io xs feedNews w of
        (Inl e, w') \<Rightarrow> (Inl e, w')
      | (Inr feedNews', w') \<Rightarrow> items_loop io ys feedNews' w')"
proof (induction xs arbitrary: feedNews w)
  case Nil
  then show ?case by simp
next
  case (Cons x xs)
  then show ?case
    by (simp split: option.splits prod.splits sum.splits)
qed

lemma items_loop_no_link:
  "item_link item = None \<or> item_link item = Some [] \<Longrightarrow>
   items_loop io (item # rest) acc w = items_loop io rest acc w"
  by (auto split: option.splits)

text \<open>
  Claim C10. An item with no link, or with an empty one, changes nothing: the loop over
  the items gives the same list and leaves the same world as it does without the item.
  The world is arbitrary, so no call of the scraper is made for the item, and the items
  before and after it are processed as they would be without it.
\<close>

theorem items_loop_skips_missing_link:
  "item_link item = None \<or> item_link item = Some [] \<Longrightarrow>
   items_loop io (before @ item # rest) feedNews w = items_loop io (before @ rest) feedNews w"
  by (simp only: items_loop_append [of io before] items_loop_no_link)

section \<open>The scraper and the date filter\<close>

lemma headers_loop_eq:
  "headers_loop cands news = news @ map article (filter complete cands)"
proof (induction cands arbitrary: news)
  case Nil
  then show ?case by simp
next
  case (Cons cand cands)
  obtain header parent grandparent where c: "cand = (header, parent, grandparent)"
    by (cases cand) auto
  show ?case
    unfolding c
    by (simp add: Cons.IH complete_def article_def split: option.splits)
qed

lemma is_tag_simps:
  "is_tag name (Element t as cs) = (t = name)"
  "is_tag name (Text s) = False"
  "is_tag name (Comment s) = False"
  by (simp_all add: is_tag_def)

lemma headings_document_order:
  "map fst (headings grandparent parent n) = filter (is_tag ''h3'') (n # descendants n)"
proof (induction n arbitrary: grandparent parent)
  case (Element t as cs)
  have "concat (map (\<lambda>c. map fst (headings parent (Some (Element t as cs)) c)) cs) =
        concat (map (\<lambda>c. filter (is_tag ''h3'') (c # descendants c)) cs)"
    using Element.IH by (intro arg_cong [where f = concat] map_cong) auto
  then show ?case
    by (simp add: map_concat filter_concat comp_def is_tag_simps)
next
  case (Text s)
  then show ?case by (simp add: is_tag_simps)
next
  case (Comment s)
  then show ?case by (simp add: is_tag_simps)
qed

lemma headings_ancestors:
  "(h, p, g) \<in> set (headings gp0 p0 n) \<Longrightarrow>
     (h = n \<and> p = p0 \<and> g = gp0) \<or>
     (\<exists>pe. p = Some pe \<and> h \<in> set (childNodes pe) \<and>
        ((pe = n \<and> g = p0) \<or> (\<exists>ge. g = Some ge \<and> pe \<in> set (childNodes ge))))"
proof (induction n arbitrary: gp0 p0)
  case (Element t as cs)
  let ?n = "Element t as cs"
  from Element.prems consider "h = ?n \<and> p = p0 \<and> g = gp0"
    | c where "c \<in> set cs" "(h, p, g) \<in> set (headings p0 (Some ?n) c)"
    by (auto split: if_splits)
  then show ?case
  proof cases
    case 1
    then show ?thesis by simp
  next
    case 2
    from Element.IH [OF 2(1) 2(2)] 2(1) show ?thesis by auto
  qed
next
  case (Text s)
  then show ?case by simp
next
  case (Comment s)
  then show ?case by simp
qed

lemma candidates_ancestors:
  "\<forall>(h, p, g) \<in> set (querySelectorAll_h3 doc).
     (case p of
        None \<Rightarrow> h = doc \<and> g = None
      | Some pe \<Rightarrow>
          h \<in> set (childNodes pe) \<and>
          (case g of None \<Rightarrow> pe = doc | Some ge \<Rightarrow> pe \<in> set (childNodes ge)))"
proof (clarify)
  fix h p g assume "(h, p, g) \<in> set (querySelectorAll_h3 doc)"
  then have "(h = doc \<and> p = None \<and> g = None) \<or>
     (\<exists>pe. p = Some pe \<and> h \<in> set (childNodes pe) \<and>
        ((pe = doc \<and> g = None) \<or> (\<exists>ge. g = Some ge \<and> pe \<in> set (childNodes ge))))"
    unfolding querySelectorAll_h3_def by (rule headings_ancestors)
  then show "case p of
        None \<Rightarrow> h = doc \<and> g = None
      | Some pe \<Rightarrow>
          h \<in> set (childNodes pe) \<and>
          (case g of None \<Rightarrow> pe = doc | Some ge \<Rightarrow> pe \<in> set (childNodes ge))"
    by auto
qed

lemma complete_article:
  "complete cand \<Longrightarrow>
   title (article cand) \<noteq> [] \<and> link (article cand) \<noteq> [] \<and> content (article cand) \<noteq> []"
  by (cases cand) (auto simp: complete_def article_def split: option.splits)

text \<open>
  Claim C7. The candidates are the \<^verbatim>\<open>h3\<close> elements in document order, each with its
  parent element and that element's parent element. The scraper's result is the list
  of the articles of the complete candidates, in the order of the candidates: title
  the heading's text, link the parent's \<^verbatim>\<open>href\<close>, content the text of the first \<^verbatim>\<open>div\<close>
  below the grandparent. Every entry of the result has a non-empty title, link and
  content. When the page is fetched and parsed, this list is what \<^verbatim>\<open>fetchNews\<close>
  returns.
\<close>

theorem fetchNews_articles:
  "map fst (querySelectorAll_h3 doc) = filter (is_tag ''h3'') (doc # descendants doc) \<and>
   (\<forall>(h, p, g) \<in> set (querySelectorAll_h3 doc).
      (case p of
         None \<Rightarrow> h = doc \<and> g = None
       | Some pe \<Rightarrow>
           h \<in> set (childNodes pe) \<and>
           (case g of None \<Rightarrow> pe = doc | Some ge \<Rightarrow> pe \<in> set (childNodes ge)))) \<and>
   headers_loop (querySelectorAll_h3 doc) [] = map article (filter complete (querySelectorAll_h3 doc)) \<and>
   (\<forall>a \<in> set (headers_loop (querySelectorAll_h3 doc) []).
      title a \<noteq> [] \<and> link a \<noteq> [] \<and> content a \<noteq> []) \<and>
   (axios_get io url w = (Inr siteFetch, w') \<and> JSDOM io siteFetch = Inr doc \<longrightarrow>
      fetchNews io url w = (Inr (map article (filter complete (querySelectorAll_h3 doc))), w'))"
proof -
  have order: "map fst (querySelectorAll_h3 doc) = filter (is_tag ''h3'') (doc # descendants doc)"
    unfolding querySelectorAll_h3_def by (rule headings_document_order)
  have e: "headers_loop (querySelectorAll_h3 doc) [] =
      map article (filter complete (querySelectorAll_h3 doc))"
    by (simp add: headers_loop_eq)
  have full: "\<forall>a \<in> set (headers_loop (querySelectorAll_h3 doc) []).
      title a \<noteq> [] \<and> link a \<noteq> [] \<and> content a \<noteq> []"
    unfolding e using complete_article by auto
  have fetched: "axios_get io url w = (Inr siteFetch, w') \<and> JSDOM io siteFetch = Inr doc \<longrightarrow>
      fetchNews io url w = (Inr (map article (filter complete (querySelectorAll_h3 doc))), w')"
    by (simp add: fetchNews_def fetchNews_try_def e)
  from order candidates_ancestors [of doc] e full fetched show ?thesis by blast
qed

lemma is_recent_iff:
  "parse [] = None \<Longrightarrow>
   is_recent parse cutoff item \<longleftrightarrow>
     (\<exists>d t. isoDate item = Some d \<and> parse d = Some t \<and> cutoff \<le> t)"
  by (auto simp: is_recent_def split: option.splits)

text \<open>
  Claim C6. With a date parser under which the empty string is no date (as
  \<^verbatim>\<open>new Date("")\<close> is invalid), the date filter keeps exactly the items whose date parses
  to a time at or after the cutoff, in their original order.
\<close>

theorem recentItems_spec:
  assumes "parse [] = None"
  shows "recentItems parse cutoff its =
           filter (\<lambda>item. \<exists>d t. isoDate item = Some d \<and> parse d = Some t \<and> cutoff \<le> t) its \<and>
         subseq (recentItems parse cutoff its) its"
proof
  show "recentItems parse cutoff its =
           filter (\<lambda>item. \<exists>d t. isoDate item = Some d \<and> parse d = Some t \<and> cutoff \<le> t) its"
    unfolding recentItems_def
    using assms by (intro filter_cong refl) (simp add: is_recent_iff [of parse])
  show "subseq (recentItems parse cutoff its) its"
    by (simp add: recentItems_def)
qed

section \<open>The claims on the simulated site\<close>

lemma demo_io_sel:
  "parseURL demo_io feed w = (demo_feed feed, w\<lparr>parsed := parsed w @ [feed]\<rparr>)"
  "axios_get demo_io url w = (demo_page url, w\<lparr>fetched := fetched w @ [url]\<rparr>)"
  "JSDOM demo_io = demo_dom"
  "writeFile demo_io path c w = (Inr (), w\<lparr>written := written w @ [(path, c)]\<rparr>)"
  "Date_parse demo_io = demo_parse"
  "Date_now demo_io w = demo_now"
  by (simp_all add: demo_io_def sim_io_def)

lemma entry_candidates:
  "querySelectorAll_h3 (page [entry attrs t c]) =
     [(Element ''h3'' [] [Text t], Some (Element ''a'' attrs [Element ''h3'' [] [Text t]]),
       Some (entry attrs t c))]"
  by (simp add: querySelectorAll_h3_def page_def entry_def)

lemma entry_content: "header_content (Some (entry attrs t c)) = Some c"
  by (simp add: header_content_def querySelector_def entry_def is_tag_simps)

lemma entry_link:
  "header_link (Some (Element ''a'' attrs [Element ''h3'' [] [Text t]])) = map_of attrs ''href''"
  by (simp add: header_link_def getAttribute_def)

lemma scrape_old:
  "fetchNews demo_io ''https://tldr.tech/tech/2024-01-01'' w =
     (Inr [\<lparr>title = ''Older'', link = ''https://a.example/old'', content = ''From 1 January''\<rparr>],
      w\<lparr>fetched := fetched w @ [''https://tldr.tech/tech/2024-01-01'']\<rparr>)"
  by (simp add: fetchNews_def fetchNews_try_def demo_io_sel demo_page_def demo_dom_def old_page_def
      entry_candidates entry_content entry_link)

lemma scrape_new:
  "fetchNews demo_io ''https://tldr.tech/tech/2024-01-02'' w =
     (Inr [\<lparr>title = ''Newer'', link = ''https://a.example/new'', content = ''From 2 January''\<rparr>],
      w\<lparr>fetched := fetched w @ [''https://tldr.tech/tech/2024-01-02'']\<rparr>)"
  by (simp add: fetchNews_def fetchNews_try_def demo_io_sel demo_page_def demo_dom_def new_page_def
      entry_candidates entry_content entry_link)

lemma demo_items_loop:
  "items_loop demo_io demo_items [] sim0 =
     (Inr [older_post, newer_post],
      \<lparr>parsed = [], fetched = [''https://tldr.tech/tech/2024-01-01'', ''https://tldr.tech/tech/2024-01-02''],
       written = []\<rparr>)"
  by (simp add: demo_items_def older_item_def newer_item_def scrape_old scrape_new with_date_def
      older_post_def newer_post_def sim0_def)

theorem items_loop_skips_missing_link_witness:
  "items_loop demo_io ([older_item] @ unlinked_item # [newer_item]) [] sim0 =
     (Inr [older_post, newer_post],
      \<lparr>parsed = [], fetched = [''https://tldr.tech/tech/2024-01-01'', ''https://tldr.tech/tech/2024-01-02''],
       written = []\<rparr>)"
proof -
  have "item_link unlinked_item = None \<or> item_link unlinked_item = Some []"
    by (simp add: unlinked_item_def)
  then have "items_loop demo_io ([older_item] @ unlinked_item # [newer_item]) [] sim0 =
        items_loop demo_io ([older_item] @ [newer_item]) [] sim0"
    by (rule items_loop_skips_missing_link)
  also have "[older_item] @ [newer_item] = demo_items" by (simp add: demo_items_def)
  finally show ?thesis by (simp only: demo_items_loop)
qed

theorem fetchNews_never_throws_witness:
  "fetchNews demo_io ''https://nowhere.invalid'' sim0 =
     (Inr [], \<lparr>parsed = [], fetched = [''https://nowhere.invalid''], written = []\<rparr>)"
proof -
  have "fst (axios_get demo_io ''https://nowhere.invalid'' sim0) = Inl network_error"
    by (simp add: demo_io_sel demo_page_def)
  then have "fetchNews demo_io ''https://nowhere.invalid'' sim0 =
      (Inr [], snd (axios_get demo_io ''https://nowhere.invalid'' sim0))"
    using fetchNews_never_throws [of demo_io "''https://nowhere.invalid''" sim0 network_error]
    by simp
  then show ?thesis by (simp add: demo_io_sel sim0_def)
qed

lemma listing_articles:
  "map article (filter complete (querySelectorAll_h3 listing)) =
     [\<lparr>title = ''First'', link = ''https://a.example/1'', content = ''About the first''\<rparr>,
      \<lparr>title = ''Third'', link = ''https://a.example/3'', content = ''About the third''\<rparr>]"
  by (simp add: querySelectorAll_h3_def listing_def page_def entry_def complete_def article_def
      header_link_def header_content_def getAttribute_def querySelector_def is_tag_simps)

theorem fetchNews_articles_witness:
  "fetchNews demo_io ''https://tldr.tech/tech/listing'' sim0 =
     (Inr [\<lparr>title = ''First'', link = ''https://a.example/1'', content = ''About the first''\<rparr>,
           \<lparr>title = ''Third'', link = ''https://a.example/3'', content = ''About the third''\<rparr>],
      \<lparr>parsed = [], fetched = [''https://tldr.tech/tech/listing''], written = []\<rparr>)"
proof -
  let ?w = "\<lparr>parsed = [], fetched = [''https://tldr.tech/tech/listing''], written = []\<rparr>"
  have "axios_get demo_io ''https://tldr.tech/tech/listing'' sim0 = (Inr ''listing'', ?w) \<and>
        JSDOM demo_io ''listing'' = Inr listing"
    by (simp add: demo_io_sel demo_page_def demo_dom_def sim0_def)
  then have "fetchNews demo_io ''https://tldr.tech/tech/listing'' sim0 =
      (Inr (map article (filter complete (querySelectorAll_h3 listing))), ?w)"
    using fetchNews_articles [of listing demo_io "''https://tldr.tech/tech/listing''" sim0 "''listing''" ?w]
    by blast
  then show ?thesis by (simp only: listing_articles)
qed

lemma demo_parse_Nil: "demo_parse [] = None"
  by (simp add: demo_parse_def)

lemma aged_recent:
  "recentItems demo_parse 1703635200000 aged_items =
     [\<lparr>item_link = Some ''https://example.com/1'', isoDate = Some ''2024-01-01T00:00:00.000Z''\<rparr>,
      \<lparr>item_link = Some ''https://example.com/3'', isoDate = Some ''2023-12-29T00:00:00.000Z''\<rparr>]"
  by (simp add: recentItems_def is_recent_def aged_items_def demo_parse_def)

theorem recentItems_spec_witness:
  "cutoffDate demo_now (Some 7) = Some 1703635200000 \<and>
   filter (\<lambda>item. \<exists>d t. isoDate item = Some d \<and> demo_parse d = Some t \<and> 1703635200000 \<le> t) aged_items =
     [\<lparr>item_link = Some ''https://example.com/1'', isoDate = Some ''2024-01-01T00:00:00.000Z''\<rparr>,
      \<lparr>item_link = Some ''https://example.com/3'', isoDate = Some ''2023-12-29T00:00:00.000Z''\<rparr>] \<and>
   subseq (recentItems demo_parse 1703635200000 aged_items) aged_items"
proof -
  have c: "cutoffDate demo_now (Some 7) = Some 1703635200000"
    by (simp add: cutoffDate_def demo_now_def msPerDay_def TimeClip_def)
  note spec = recentItems_spec [of demo_parse 1703635200000 aged_items, OF demo_parse_Nil]
  from spec have "filter (\<lambda>item. \<exists>d t. isoDate item = Some d \<and> demo_parse d = Some t \<and> 1703635200000 \<le> t) aged_items =
      recentItems demo_parse 1703635200000 aged_items"
    by simp
  moreover from spec have "subseq (recentItems demo_parse 1703635200000 aged_items) aged_items"
    by simp
  ultimately show ?thesis using c by (simp only: aged_recent simp_thms)
qed

section \<open>The combined feed\<close>

text \<open>
  On posts whose dates all parse, the comparator of the writers orders by
  \<open>newest_first\<close> and \<^verbatim>\<open>Array.prototype.sort\<close> is the library's stable \<open>sort_key\<close>. The
  posts of a topic have such dates: each carries the date of an item that passed the
  date filter.
\<close>

lemma comparePosts_le:
  "parse (date x) \<noteq> None \<Longrightarrow> parse (date y) \<noteq> None \<Longrightarrow>
   comparePosts parse x y \<le> 0 \<longleftrightarrow> newest_first parse x \<le> newest_first parse y"
  by (auto simp: comparePosts_def newest_first_def)

lemma insort_by_key:
  "parse (date x) \<noteq> None \<Longrightarrow> \<forall>y \<in> set ys. parse (date y) \<noteq> None \<Longrightarrow>
   insort_by (comparePosts parse) x ys = insort_key (newest_first parse) x ys"
  by (induction ys) (simp_all add: comparePosts_le)

lemma Array_sort_key:
  "\<forall>p \<in> set xs. parse (date p) \<noteq> None \<Longrightarrow>
   Array_sort (comparePosts parse) xs = sort_key (newest_first parse) xs"
proof (induction xs)
  case Nil
  then show ?case by (simp add: Array_sort_def)
next
  case (Cons x xs)
  then have ih: "foldr (insort_by (comparePosts parse)) xs [] = sort_key (newest_first parse) xs"
    by (simp add: Array_sort_def)
  have "insort_by (comparePosts parse) x (sort_key (newest_first parse) xs) =
        insort_key (newest_first parse) x (sort_key (newest_first parse) xs)"
    using Cons.prems by (intro insort_by_key) simp_all
  then show ?case by (simp add: Array_sort_def ih sort_key_def)
qed

lemma sort_key_twice: "sort_key f (sort_key f xs) = sort_key f xs"
  by (rule sort_key_id_if_sorted) (rule sorted_sort_key)

lemma write_feedNews_sorts:
  assumes "\<forall>p \<in> set feedNews. Date_parse io (date p) \<noteq> None"
    and "write_feedNews io feedName feedNews w = (Inr u, feedNews', w')"
  shows "feedNews' = sort_key (newest_first (Date_parse io)) feedNews"
proof -
  let ?s = "sort_key (newest_first (Date_parse io)) feedNews"
  have s1: "Array_sort (comparePosts (Date_parse io)) feedNews = ?s"
    using assms(1) by (rule Array_sort_key)
  have "\<forall>p \<in> set ?s. Date_parse io (date p) \<noteq> None" using assms(1) by simp
  then have s2: "Array_sort (comparePosts (Date_parse io)) ?s = ?s"
    by (simp add: Array_sort_key sort_key_twice)
  from assms(2) show ?thesis
    by (auto simp: write_feedNews_def writeRssFeed_def writeHtmlFeed_def Let_def s1 s2
        split: if_splits prod.splits sum.splits)
qed

lemma is_recent_parses:
  "is_recent parse cutoff item \<Longrightarrow> isoDate item = Some d \<Longrightarrow> parse d \<noteq> None"
  by (auto simp: is_recent_def split: option.splits if_splits)

lemma items_loop_dates:
  assumes "items_loop io its acc w = (Inr res, w')"
    and "\<forall>item \<in> set its. is_recent (Date_parse io) cutoff item"
    and "\<forall>p \<in> set acc. Date_parse io (date p) \<noteq> None"
  shows "\<forall>p \<in> set res. Date_parse io (date p) \<noteq> None"
  using assms
proof (induction its arbitrary: acc w)
  case Nil
  then show ?case by simp
next
  case (Cons item its)
  show ?case
  proof (cases "\<exists>l d. item_link item = Some l \<and> isoDate item = Some d \<and> l \<noteq> [] \<and> d \<noteq> []")
    case True
    then obtain l d where ld: "item_link item = Some l" "isoDate item = Some d" "l \<noteq> []" "d \<noteq> []"
      by blast
    obtain r w1 where f: "fetchNews io l w = (r, w1)" by (cases "fetchNews io l w")
    with Cons.prems(1) ld obtain news where r: "r = Inr news" by (cases r) auto
    have step: "items_loop io its (acc @ map (with_date d) news) w1 = (Inr res, w')"
      using Cons.prems(1) ld f r by simp
    have "Date_parse io d \<noteq> None"
      using Cons.prems(2) ld(2) is_recent_parses [of "Date_parse io" cutoff item d] by simp
    then have "\<forall>p \<in> set (acc @ map (with_date d) news). Date_parse io (date p) \<noteq> None"
      using Cons.prems(3) by (auto simp: with_date_def)
    then show ?thesis using Cons.IH [OF step] Cons.prems(2) by simp
  next
    case False
    then have "items_loop io (item # its) acc w = items_loop io its acc w"
      by (auto split: option.splits)
    then show ?thesis using Cons.IH [of acc w] Cons.prems by simp
  qed
qed

lemma collect_feedNews_dates:
  assumes "collect_feedNews io cutoff feedName w = (Inr feedNews, w')"
  shows "\<forall>p \<in> set feedNews. Date_parse io (date p) \<noteq> None"
proof -
  obtain r w1 where g: "getRSSFeed io (RSS_BASE_URL @ ''/'' @ feedName) w = (r, w1)"
    by (cases "getRSSFeed io (RSS_BASE_URL @ ''/'' @ feedName) w")
  with assms obtain rssNews where r: "r = Inr rssNews"
    by (cases r) (auto simp: collect_feedNews_def)
  have "items_loop io (recentItems (Date_parse io) cutoff (items rssNews)) [] w1 = (Inr feedNews, w')"
    using assms g r by (simp add: collect_feedNews_def)
  then show ?thesis
    by (rule items_loop_dates [where cutoff = cutoff]) (simp_all add: recentItems_def)
qed

lemma feeds_loop_order:
  "feeds_loop io cutoff topics acc w = (Inr dateWithNews, w') \<Longrightarrow>
   dateWithNews = acc @ concat (map (sort_key (newest_first (Date_parse io))) (topic_lists io cutoff topics w)) \<and>
   length (topic_lists io cutoff topics w) = length topics"
proof (induction topics arbitrary: acc w)
  case Nil
  then show ?case by simp
next
  case (Cons feedName rest)
  obtain r w1 where c: "collect_feedNews io cutoff feedName w = (r, w1)"
    by (cases "collect_feedNews io cutoff feedName w")
  with Cons.prems obtain feedNews where r: "r = Inr feedNews" by (cases r) auto
  obtain r2 feedNews' w2 where wr: "write_feedNews io feedName feedNews w1 = (r2, feedNews', w2)"
    by (cases "write_feedNews io feedName feedNews w1")
  with Cons.prems c r obtain u where r2: "r2 = Inr u" by (cases r2) auto
  have dates: "\<forall>p \<in> set feedNews. Date_parse io (date p) \<noteq> None"
    using c r by (intro collect_feedNews_dates [of io cutoff feedName w feedNews w1]) simp
  have sorted: "feedNews' = sort_key (newest_first (Date_parse io)) feedNews"
    using dates wr r2 by (intro write_feedNews_sorts [of feedNews io feedName w1 u feedNews' w2]) simp_all
  have step: "feeds_loop io cutoff rest (acc @ feedNews') w2 = (Inr dateWithNews, w')"
    using Cons.prems c r wr r2 by simp
  have tl: "topic_lists io cutoff (feedName # rest) w = feedNews # topic_lists io cutoff rest w2"
    using c r wr r2 by simp
  show ?case unfolding tl using Cons.IH [OF step] sorted by simp
qed

text \<open>
  Claim C5, amended. When the loop over the topics completes, the combined list that
  goes to the writer of the combined feed is the concatenation, in the order of the
  configured topics, of every topic's list as the topic's writers left it: the entries
  appended for the topic, sorted by date with the newest first, entries of equal date
  in the order they were appended (\<open>sort_key\<close> is stable). Every topic contributes
  one list.
\<close>

theorem combined_feed_order:
  "feeds_loop io cutoff topics [] w = (Inr dateWithNews, w') \<longrightarrow>
   dateWithNews = concat (map (sort_key (newest_first (Date_parse io))) (topic_lists io cutoff topics w)) \<and>
   length (topic_lists io cutoff topics w) = length topics"
  using feeds_loop_order [of io cutoff topics "[]" w dateWithNews w'] by simp

lemma demo_getRSSFeed:
  "getRSSFeed demo_io ''https://tldr.tech/api/rss/tech'' w =
     (Inr \<lparr>items = demo_items\<rparr>, w\<lparr>parsed := parsed w @ [''https://tldr.tech/api/rss/tech'']\<rparr>)"
  unfolding getRSSFeed_def
  by (rule loop_success) (simp_all add: demo_io_sel demo_feed_def)

lemma demo_recent: "recentItems demo_parse demo_cutoff demo_items = demo_items"
  by (simp add: recentItems_def is_recent_def demo_items_def older_item_def newer_item_def
      demo_parse_def demo_cutoff_def)

lemma demo_items_loop_from:
  "items_loop demo_io demo_items [] w =
     (Inr [older_post, newer_post],
      w\<lparr>fetched := fetched w @ [''https://tldr.tech/tech/2024-01-01'', ''https://tldr.tech/tech/2024-01-02'']\<rparr>)"
  by (simp add: demo_items_def older_item_def newer_item_def scrape_old scrape_new with_date_def
      older_post_def newer_post_def)

lemma demo_collect:
  "collect_feedNews demo_io demo_cutoff ''tech'' sim0 =
     (Inr [older_post, newer_post],
      \<lparr>parsed = [''https://tldr.tech/api/rss/tech''],
       fetched = [''https://tldr.tech/tech/2024-01-01'', ''https://tldr.tech/tech/2024-01-02''],
       written = []\<rparr>)"
proof -
  have u: "RSS_BASE_URL @ ''/'' @ ''tech'' = ''https://tldr.tech/api/rss/tech''"
    by (simp add: RSS_BASE_URL_def)
  show ?thesis
    unfolding collect_feedNews_def u
    by (simp add: demo_getRSSFeed demo_io_sel demo_recent demo_items_loop_from sim0_def)
qed

lemma demo_sorted:
  "Array_sort (comparePosts demo_parse) [older_post, newer_post] = [newer_post, older_post]"
  "Array_sort (comparePosts demo_parse) [newer_post, older_post] = [newer_post, older_post]"
  by (simp_all add: Array_sort_def comparePosts_def demo_parse_def older_post_def newer_post_def)

lemma demo_dates:
  "demo_parse (date older_post) = Some 1704067200000"
  "demo_parse (date newer_post) = Some 1704153600000"
  by (simp_all add: demo_parse_def older_post_def newer_post_def)

lemma demo_write:
  "write_feedNews demo_io ''tech'' [older_post, newer_post] w =
     (Inr (), [newer_post, older_post],
      w\<lparr>written := written w @
         [(''./static/tech.rss'', RssFeed ''tech'' [newer_post, older_post]),
          (''./static/tech.html'', HtmlFeed ''tech'' [newer_post, older_post])]\<rparr>)"
  by (simp add: write_feedNews_def writeRssFeed_def writeHtmlFeed_def demo_io_sel demo_sorted
      demo_dates Let_def)

lemma demo_feeds_loop:
  "feeds_loop demo_io demo_cutoff [''tech''] [] sim0 =
     (Inr [newer_post, older_post],
      \<lparr>parsed = [''https://tldr.tech/api/rss/tech''],
       fetched = [''https://tldr.tech/tech/2024-01-01'', ''https://tldr.tech/tech/2024-01-02''],
       written = [(''./static/tech.rss'', RssFeed ''tech'' [newer_post, older_post]),
          (''./static/tech.html'', HtmlFeed ''tech'' [newer_post, older_post])]\<rparr>)"
  by (simp add: demo_collect demo_write)

lemma demo_topic_lists:
  "topic_lists demo_io demo_cutoff [''tech''] sim0 = [[older_post, newer_post]]"
  by (simp add: demo_collect demo_write)

lemma posts_differ: "newer_post \<noteq> older_post"
  by (simp add: newer_post_def older_post_def)

text \<open>
  Claim C5, as stated, says that the combined list is the concatenation of the topics'
  lists in the order their entries were appended. On the simulated site the feed lists
  its items oldest first: the topic's list is appended as older, newer, and the writers
  have sorted that same array newest first before line 75 copies it, so the combined
  list is newer, older.
\<close>

theorem combined_feed_appended_order_counterexample:
  "cutoffDate (Date_now demo_io sim0) (Some 10) = Some demo_cutoff \<and>
   topic_lists demo_io demo_cutoff [''tech''] sim0 = [[older_post, newer_post]] \<and>
   fst (feeds_loop demo_io demo_cutoff [''tech''] [] sim0) = Inr [newer_post, older_post] \<and>
   fst (feeds_loop demo_io demo_cutoff [''tech''] [] sim0) \<noteq>
     Inr (concat (topic_lists demo_io demo_cutoff [''tech''] sim0))"
proof -
  have "cutoffDate (Date_now demo_io sim0) (Some 10) = Some demo_cutoff"
    by (simp add: cutoffDate_def demo_io_sel demo_now_def msPerDay_def TimeClip_def demo_cutoff_def)
  then show ?thesis
    unfolding demo_feeds_loop demo_topic_lists using posts_differ by simp
qed

theorem combined_feed_order_witness:
  "concat (map (sort_key (newest_first (Date_parse demo_io)))
     (topic_lists demo_io demo_cutoff [''tech''] sim0)) = [newer_post, older_post] \<and>
   length (topic_lists demo_io demo_cutoff [''tech''] sim0) = length [''tech'']"
  using combined_feed_order [of demo_io demo_cutoff "[''tech'']" sim0 "[newer_post, older_post]"
      "\<lparr>parsed = [''https://tldr.tech/api/rss/tech''],
       fetched = [''https://tldr.tech/tech/2024-01-01'', ''https://tldr.tech/tech/2024-01-02''],
       written = [(''./static/tech.rss'', RssFeed ''tech'' [newer_post, older_post]),
          (''./static/tech.html'', HtmlFeed ''tech'' [newer_post, older_post])]\<rparr>"]
    demo_feeds_loop
  unfolding demo_topic_lists by simp

end
